theory Spec2Isabelle
  imports Main "HOL-Library.Sublist"
begin

section \<open>Stream role resolution of the prebuffer mixin (stream-settings.ts)\<close>

subsection \<open>JavaScript numbers as far as the scorer needs them\<close>

text \<open>
  The scorer multiplies two optional pixel dimensions, subtracts the target pixel count and
  takes the absolute value, all in IEEE 754 double precision. Pixel dimensions and targets
  are integers, and the product and the difference of integer-valued doubles are the exact
  integer results rounded to the nearest double (ties to the even significand), or an
  infinity on overflow. A number is therefore one of: not a number, an infinity, or a finite
  integer-valued double given by its integer value. The sign of zero is not tracked: neither
  \<open>Math.abs\<close> nor \<open><\<close> can tell the two zeros apart, and a difference with a non-zero target
  does not depend on it.
\<close>

datatype jsnum = NaN | NInf | Num int | PInf

definition MAX_SAFE_INTEGER :: int where
  "MAX_SAFE_INTEGER = 9007199254740991"

text \<open>The number of binary digits of a positive integer.\<close>

function bit_length :: "int \<Rightarrow> nat" where
  "bit_length a = (if a \<le> 0 then 0 else Suc (bit_length (a div 2)))"
  by pat_completeness auto
termination
  by (relation "measure nat") auto

declare bit_length.simps [simp del]

text \<open>
  The double nearest to an integer. Below \<open>2^53\<close> every integer is a double. From there on
  the 53 leading binary digits are kept and the rest is rounded to nearest, a tie going to
  the even significand; a result of \<open>2^1024\<close> or more is an infinity.
\<close>

definition js_round :: "int \<Rightarrow> jsnum" where
  "js_round n =
     (let a = \<bar>n\<bar> in
      if a < 9007199254740992 then Num n
      else
        let e = bit_length a - 53;
            q = a div 2 ^ e;
            rest = a mod 2 ^ e;
            half = 2 ^ (e - 1);
            q' = (if half < rest \<or> (rest = half \<and> odd q) then q + 1 else q);
            v = q' * 2 ^ e
        in if 2 ^ 1024 \<le> v then (if n < 0 then NInf else PInf)
           else Num (if n < 0 then - v else v))"

fun is_negative :: "jsnum \<Rightarrow> bool" where
  "is_negative NInf = True"
| "is_negative (Num a) = (a < 0)"
| "is_negative _ = False"

text \<open>The product: NaN is contagious, zero times an infinity is NaN, any other product
  with an infinity is the infinity of the product's sign.\<close>

fun js_mul :: "jsnum \<Rightarrow> jsnum \<Rightarrow> jsnum" where
  "js_mul NaN _ = NaN"
| "js_mul _ NaN = NaN"
| "js_mul (Num a) (Num b) = js_round (a * b)"
| "js_mul x y =
     (if x = Num 0 \<or> y = Num 0 then NaN
      else if is_negative x = is_negative y then PInf else NInf)"

text \<open>The difference: equal infinities cancel to NaN.\<close>

fun js_sub :: "jsnum \<Rightarrow> jsnum \<Rightarrow> jsnum" where
  "js_sub NaN _ = NaN"
| "js_sub _ NaN = NaN"
| "js_sub (Num a) (Num b) = js_round (a - b)"
| "js_sub PInf PInf = NaN"
| "js_sub NInf NInf = NaN"
| "js_sub PInf _ = PInf"
| "js_sub NInf _ = NInf"
| "js_sub _ PInf = NInf"
| "js_sub _ NInf = PInf"

fun js_abs :: "jsnum \<Rightarrow> jsnum" where
  "js_abs (Num a) = Num \<bar>a\<bar>"
| "js_abs NaN = NaN"
| "js_abs _ = PInf"

text \<open>\<open>a < b\<close>: false as soon as one side is NaN.\<close>

fun js_lt :: "jsnum \<Rightarrow> jsnum \<Rightarrow> bool" where
  "js_lt (Num a) (Num b) = (a < b)"
| "js_lt NInf (Num _) = True"
| "js_lt NInf PInf = True"
| "js_lt (Num _) PInf = True"
| "js_lt _ _ = False"

fun isNaN :: "jsnum \<Rightarrow> bool" where
  "isNaN NaN = True"
| "isNaN _ = False"

text \<open>
  The value of an optional numeric field: \<open>undefined\<close>, \<open>null\<close>, or a number written as an
  integer. In arithmetic \<open>undefined\<close> converts to NaN and \<open>null\<close> to zero; an integer stands
  for the double that the numeric literal denotes.
\<close>

datatype jsval = Undefined | Null | Number int

fun ToNumber :: "jsval \<Rightarrow> jsnum" where
  "ToNumber Undefined = NaN"
| "ToNumber Null = Num 0"
| "ToNumber (Number n) = js_round n"

subsection \<open>Data model\<close>

text \<open>
  Only the fields read by the selection functions are kept. Every one of them is optional
  in the stream options interface. For the strings and for \<open>video\<close>, \<open>None\<close> is an absent
  value (\<open>undefined\<close> or \<open>null\<close>, which the code does not tell apart there); the two
  dimensions keep the difference, since arithmetic does.
\<close>

record VideoStreamOptions =
  width :: jsval
  height :: jsval

record ResponseMediaStreamOptions =
  name :: "string option"
  source :: "string option"
  container :: "string option"
  video :: "VideoStreamOptions option"

text \<open>The static metadata of a role (\<open>StreamStorageSetting\<close>); the description and the
  \<open>hide\<close> flag only feed the settings user interface and are left out.\<close>

record StreamStorageSetting =
  title :: string
  prefersPrebuffer :: bool
  preferredResolution :: int

datatype role =
  defaultStream | remoteStream | lowResolutionStream | recordingStream | remoteRecordingStream

fun streamTypes :: "role \<Rightarrow> StreamStorageSetting" where
  "streamTypes defaultStream =
     \<lparr>title = ''Local Stream'', prefersPrebuffer = True, preferredResolution = 3840 * 2160\<rparr>"
| "streamTypes remoteStream =
     \<lparr>title = ''Remote (Medium Resolution) Stream'', prefersPrebuffer = False,
      preferredResolution = 1280 * 720\<rparr>"
| "streamTypes lowResolutionStream =
     \<lparr>title = ''Low Resolution Stream'', prefersPrebuffer = False,
      preferredResolution = 480 * 360\<rparr>"
| "streamTypes recordingStream =
     \<lparr>title = ''Local Recording Stream'', prefersPrebuffer = True,
      preferredResolution = 3840 * 2160\<rparr>"
| "streamTypes remoteRecordingStream =
     \<lparr>title = ''Remote Recording Stream'', prefersPrebuffer = True,
      preferredResolution = 1280 * 720\<rparr>"

text \<open>
  The settings store is an external collaborator. The functions read three things from it:
  whether \<open>enabledStreams\<close> has a persisted value, that value (a list of names, the setting
  being declared \<open>multiple\<close>), and the persisted value of each role key, which may be
  \<open>undefined\<close>.
\<close>

record StorageSettings =
  hasValue_enabledStreams :: bool
  values_enabledStreams :: "string list"
  values_role :: "role \<Rightarrow> string option"

text \<open>The object returned by \<open>getMediaStream\<close>.\<close>

record MediaStream =
  title :: string
  isDefault :: bool
  stream :: "ResponseMediaStreamOptions option"

subsection \<open>Default prebuffered streams\<close>

definition getDefaultPrebufferedStreams ::
  "ResponseMediaStreamOptions list option \<Rightarrow> ResponseMediaStreamOptions list option" where
  "getDefaultPrebufferedStreams msos =
     (case msos of
        None \<Rightarrow> None
      | Some xs \<Rightarrow>
          (case find (\<lambda>mso. source mso \<noteq> Some ''cloud'' \<and> container mso \<noteq> Some ''rawvideo'') xs of
             Some firstNonCloudStream \<Rightarrow> Some [firstNonCloudStream]
           | None \<Rightarrow> Some []))"

text \<open>\<open>Array.prototype.includes\<close> on a list of strings; an \<open>undefined\<close> name is never found.\<close>

fun includes_str :: "string list \<Rightarrow> string option \<Rightarrow> bool" where
  "includes_str ns None = False"
| "includes_str ns (Some n) = (n \<in> set ns)"

definition getPrebufferedStreams ::
  "StorageSettings \<Rightarrow> ResponseMediaStreamOptions list option
     \<Rightarrow> ResponseMediaStreamOptions list option" where
  "getPrebufferedStreams storageSettings msos =
     (case msos of
        None \<Rightarrow> None
      | Some xs \<Rightarrow>
          if \<not> hasValue_enabledStreams storageSettings then getDefaultPrebufferedStreams msos
          else Some (filter (\<lambda>mso. includes_str (values_enabledStreams storageSettings) (name mso)) xs))"

subsection \<open>Best-match scorer\<close>

text \<open>\<open>Math.abs(mso.video?.width * mso.video?.height - resolution)\<close>: the optional chain yields
  \<open>undefined\<close> when \<open>video\<close> is missing.\<close>

definition video_width :: "ResponseMediaStreamOptions \<Rightarrow> jsval" where
  "video_width mso = (case video mso of None \<Rightarrow> Undefined | Some v \<Rightarrow> width v)"

definition video_height :: "ResponseMediaStreamOptions \<Rightarrow> jsval" where
  "video_height mso = (case video mso of None \<Rightarrow> Undefined | Some v \<Rightarrow> height v)"

definition score :: "int \<Rightarrow> ResponseMediaStreamOptions \<Rightarrow> jsnum" where
  "score resolution mso =
     js_abs (js_sub (js_mul (ToNumber (video_width mso)) (ToNumber (video_height mso)))
                    (js_round resolution))"

text \<open>The two loop variables; both start out \<open>undefined\<close>.\<close>

record pick_state =
  best :: "ResponseMediaStreamOptions option"
  bestScore :: "jsnum option"

definition pick_init :: pick_state where
  "pick_init = \<lparr>best = None, bestScore = None\<rparr>"

fun bestScore_number :: "jsnum option \<Rightarrow> jsnum" where
  "bestScore_number None = NaN"
| "bestScore_number (Some x) = x"

text \<open>One iteration of the \<open>for\<close> loop.\<close>

definition pick_step :: "int \<Rightarrow> pick_state \<Rightarrow> ResponseMediaStreamOptions \<Rightarrow> pick_state" where
  "pick_step resolution s mso =
     (let sc = score resolution mso in
      if best s = None \<or> js_lt sc (bestScore_number (bestScore s))
      then \<lparr>best = Some mso,
            bestScore = Some (if isNaN sc then Num MAX_SAFE_INTEGER else sc)\<rparr>
      else s)"

definition pickBestStream ::
  "ResponseMediaStreamOptions list option \<Rightarrow> int \<Rightarrow> ResponseMediaStreamOptions option" where
  "pickBestStream msos resolution =
     (case msos of
        None \<Rightarrow> None
      | Some xs \<Rightarrow> best (foldl (pick_step resolution) pick_init xs))"

subsection \<open>Role resolver\<close>


text \<open>\<open>enabledStreams?.length > 0\<close>: the length of an \<open>undefined\<close> list is \<open>undefined\<close>, which
  compares as NaN.\<close>

definition length_gt_0 :: "ResponseMediaStreamOptions list option \<Rightarrow> bool" where
  "length_gt_0 enabledStreams =
     js_lt (Num 0)
       (case enabledStreams of
          None \<Rightarrow> ToNumber Undefined
        | Some xs \<Rightarrow> Num (int (length xs)))"

definition prebufferPreferenceStreams ::
  "StorageSettings \<Rightarrow> StreamStorageSetting \<Rightarrow> ResponseMediaStreamOptions list option
     \<Rightarrow> ResponseMediaStreamOptions list option" where
  "prebufferPreferenceStreams storageSettings v msos =
     (let enabledStreams = getPrebufferedStreams storageSettings msos in
      if prefersPrebuffer v \<and> length_gt_0 enabledStreams then enabledStreams else msos)"

definition getDefaultMediaStream ::
  "StorageSettings \<Rightarrow> StreamStorageSetting \<Rightarrow> ResponseMediaStreamOptions list option
     \<Rightarrow> ResponseMediaStreamOptions option" where
  "getDefaultMediaStream storageSettings v msos =
     pickBestStream (prebufferPreferenceStreams storageSettings v msos) (preferredResolution v)"

text \<open>\<open>msos?.find(mso => mso.name === value)\<close>.\<close>

definition find_by_name ::
  "ResponseMediaStreamOptions list option \<Rightarrow> string option \<Rightarrow> ResponseMediaStreamOptions option" where
  "find_by_name msos v =
     (case msos of None \<Rightarrow> None | Some xs \<Rightarrow> find (\<lambda>mso. name mso = v) xs)"

definition getMediaStream ::
  "StorageSettings \<Rightarrow> role \<Rightarrow> ResponseMediaStreamOptions list option \<Rightarrow> MediaStream" where
  "getMediaStream storageSettings key msos =
     (let v = streamTypes key;
          val = values_role storageSettings key;
          isDefault0 = (val = Some ''Default'');
          stream0 = find_by_name msos val
      in if isDefault0 \<or> stream0 = None
         then \<lparr>title = StreamStorageSetting.title (streamTypes key), isDefault = True,
               stream = getDefaultMediaStream storageSettings v msos\<rparr>
         else \<lparr>title = StreamStorageSetting.title (streamTypes key), isDefault = isDefault0,
               stream = stream0\<rparr>)"

subsection \<open>Concrete streams and stores used in the examples\<close>

definition mk_stream ::
  "string \<Rightarrow> string \<Rightarrow> string \<Rightarrow> int \<Rightarrow> int \<Rightarrow> ResponseMediaStreamOptions" where
  "mk_stream n src c w h =
     \<lparr>name = Some n, source = Some src, container = Some c,
      video = Some \<lparr>width = Number w, height = Number h\<rparr>\<rparr>"

definition s1080p :: ResponseMediaStreamOptions where
  "s1080p = mk_stream ''1080p'' ''local'' ''h264'' 1920 1080"

definition s4k :: ResponseMediaStreamOptions where
  "s4k = mk_stream ''4k'' ''local'' ''h264'' 3840 2160"

text \<open>A store in which nothing but the role values is persisted.\<close>

definition store_roles :: "(role \<Rightarrow> string option) \<Rightarrow> StorageSettings" where
  "store_roles f =
     \<lparr>hasValue_enabledStreams = False, values_enabledStreams = [], values_role = f\<rparr>"

text \<open>A store with an explicit enabled-streams value.\<close>

definition store_enabled :: "string list \<Rightarrow> (role \<Rightarrow> string option) \<Rightarrow> StorageSettings" where
  "store_enabled ns f =
     \<lparr>hasValue_enabledStreams = True, values_enabledStreams = ns, values_role = f\<rparr>"

definition sUnknown :: ResponseMediaStreamOptions where
  "sUnknown =
     \<lparr>name = Some ''nodims'', source = Some ''local'', container = Some ''h264'', video = None\<rparr>"

definition sPortrait :: ResponseMediaStreamOptions where
  "sPortrait = mk_stream ''portrait'' ''local'' ''h264'' 1080 1920"

definition sHuge :: ResponseMediaStreamOptions where
  "sHuge = mk_stream ''huge'' ''local'' ''h264'' 134217728 134217728"

definition sCloud :: ResponseMediaStreamOptions where
  "sCloud = \<lparr>name = Some ''cloud1'', source = Some ''cloud'', container = None, video = None\<rparr>"

definition sRaw :: ResponseMediaStreamOptions where
  "sRaw = mk_stream ''raw'' ''local'' ''rawvideo'' 640 480"

definition sDefaultNamed :: ResponseMediaStreamOptions where
  "sDefaultNamed = mk_stream ''Default'' ''local'' ''h264'' 640 480"

text \<open>A stream whose width is \<open>null\<close>.\<close>

definition sNullWidth :: ResponseMediaStreamOptions where
  "sNullWidth =
     \<lparr>name = Some ''nullwidth'', source = Some ''local'', container = Some ''h264'',
      video = Some \<lparr>width = Null, height = Number 1080\<rparr>\<rparr>"

text \<open>Two streams whose exact pixel counts differ by one, the second beyond \<open>2^53\<close>.\<close>

definition sBelow :: ResponseMediaStreamOptions where
  "sBelow = mk_stream ''below'' ''local'' ''h264'' 1 9007199254740992"

definition sAbove :: ResponseMediaStreamOptions where
  "sAbove = mk_stream ''above'' ''local'' ''h264'' 3 3002399751580331"

subsection \<open>Notions used to state the loop invariant of the scorer\<close>

text \<open>The number that \<open>bestScore\<close> holds after a candidate with the given score was taken.\<close>

fun stored_score :: "jsnum \<Rightarrow> jsnum" where
  "stored_score NaN = Num MAX_SAFE_INTEGER"
| "stored_score x = x"

text \<open>
  What is known about the index \<open>k\<close> of the candidate held in \<open>best\<close> after the loop ran over
  \<open>xs\<close>: a candidate taken after the first one has a proper score, the stored score is
  strictly below every proper score before it, and no proper score anywhere in \<open>xs\<close> is
  below the stored one.
\<close>

definition pick_inv :: "int \<Rightarrow> ResponseMediaStreamOptions list \<Rightarrow> nat \<Rightarrow> bool" where
  "pick_inv r xs k \<longleftrightarrow>
     k < length xs \<and>
     (0 < k \<longrightarrow> score r (xs ! k) \<noteq> NaN) \<and>
     (\<forall>i<k. score r (xs ! i) \<noteq> NaN \<longrightarrow>
        js_lt (stored_score (score r (xs ! k))) (score r (xs ! i))) \<and>
     (\<forall>j<length xs. score r (xs ! j) \<noteq> NaN \<longrightarrow>
        \<not> js_lt (score r (xs ! j)) (stored_score (score r (xs ! k))))"

section \<open>Properties\<close>

lemmas resolver_defs =
  getMediaStream_def find_by_name_def getDefaultMediaStream_def prebufferPreferenceStreams_def
  getPrebufferedStreams_def getDefaultPrebufferedStreams_def length_gt_0_def
  pickBestStream_def pick_step_def pick_init_def score_def video_width_def video_height_def
  js_round_def MAX_SAFE_INTEGER_def Let_def

lemmas example_defs =
  store_roles_def store_enabled_def s1080p_def s4k_def sUnknown_def sPortrait_def
  sHuge_def sCloud_def sRaw_def sDefaultNamed_def sNullWidth_def sBelow_def sAbove_def
  mk_stream_def

subsection \<open>Order facts about the comparison\<close>

lemma js_lt_irrefl: "\<not> js_lt a a"
  by (cases a) simp_all

lemma js_lt_asym: "js_lt a b \<Longrightarrow> \<not> js_lt b a"
  by (cases a; cases b) simp_all

lemma js_lt_not_NaN: "js_lt a b \<Longrightarrow> a \<noteq> NaN \<and> b \<noteq> NaN"
  by (cases a; cases b) simp_all

text \<open>What is below a bound is below everything proper that is not below the bound.\<close>

lemma js_lt_below_all: "js_lt a b \<Longrightarrow> \<not> js_lt c b \<Longrightarrow> c \<noteq> NaN \<Longrightarrow> js_lt a c"
  by (cases a; cases b; cases c) simp_all


lemma stored_score_proper: "x \<noteq> NaN \<Longrightarrow> stored_score x = x"
  by (cases x) simp_all

subsection \<open>Evaluating the rounding\<close>

lemma bit_length_eq: "2 ^ k \<le> a \<Longrightarrow> a < 2 ^ Suc k \<Longrightarrow> bit_length a = Suc k"
proof (induction k arbitrary: a)
  case 0
  then have "a = 1" by simp
  then show ?case by (simp add: bit_length.simps)
next
  case (Suc k)
  then have "2 ^ k \<le> a div 2" and "a div 2 < 2 ^ Suc k" by auto
  then have "bit_length (a div 2) = Suc k" by (rule Suc.IH)
  moreover have "(0::int) < 2 ^ Suc k" by simp
  with Suc.prems have "0 < a" by linarith
  ultimately show ?case by (subst bit_length.simps) simp
qed

lemma bit_length_examples:
  "bit_length 9007199254740992 = 54"
  "bit_length 9007199254740993 = 54"
  "bit_length 18014398501187584 = 54"
  "bit_length 18014398509481984 = 55"
  by (rule bit_length_eq [of 53, simplified] bit_length_eq [of 54, simplified]; simp)+

text \<open>\<open>2^53 + 1\<close> is no double: it lies halfway between \<open>2^53\<close> and \<open>2^53 + 2\<close> and goes to
  the even significand. The other three integers are doubles.\<close>

lemma js_round_examples:
  "js_round 9007199254740992 = Num 9007199254740992"
  "js_round 9007199254740993 = Num 9007199254740992"
  "js_round 18014398501187584 = Num 18014398501187584"
  "js_round 18014398509481984 = Num 18014398509481984"
  by (simp_all add: js_round_def bit_length_examples Let_def)

lemma score_sBelow: "score 921600 sBelow = Num 9007199253819392"
  by (simp add: score_def video_width_def video_height_def sBelow_def mk_stream_def
      js_round_def bit_length_examples Let_def)

lemma score_sAbove: "score 921600 sAbove = Num 9007199253819392"
  by (simp add: score_def video_width_def video_height_def sAbove_def mk_stream_def
      js_round_def bit_length_examples Let_def)

lemma score_sHuge: "score 8294400 sHuge = Num 18014398501187584"
  by (simp add: score_def video_width_def video_height_def sHuge_def mk_stream_def
      js_round_def bit_length_examples Let_def)

subsection \<open>The scorer's loop\<close>


text \<open>Where every value involved stays below \<open>2^53\<close>, the score is the exact distance.\<close>

lemma score_exact:
  assumes "video_width m = Number w" and "video_height m = Number h"
    and "\<bar>w\<bar> < 9007199254740992" and "\<bar>h\<bar> < 9007199254740992"
    and "\<bar>w * h\<bar> < 9007199254740992" and "\<bar>r\<bar> < 9007199254740992"
    and "\<bar>w * h - r\<bar> < 9007199254740992"
  shows "score r m = Num \<bar>w * h - r\<bar>"
  using assms by (simp add: score_def js_round_def)

lemma pick_step_init:
  "pick_step r pick_init x = \<lparr>best = Some x, bestScore = Some (stored_score (score r x))\<rparr>"
  by (cases "score r x") (simp_all add: pick_step_def pick_init_def)

lemma pick_step_taken:
  "js_lt (score r x) n \<Longrightarrow>
   pick_step r \<lparr>best = Some b, bestScore = Some n\<rparr> x
     = \<lparr>best = Some x, bestScore = Some (stored_score (score r x))\<rparr>"
  by (cases "score r x") (simp_all add: pick_step_def)

lemma pick_step_kept:
  "\<not> js_lt (score r x) n \<Longrightarrow>
   pick_step r \<lparr>best = Some b, bestScore = Some n\<rparr> x
     = \<lparr>best = Some b, bestScore = Some n\<rparr>"
  by (simp add: pick_step_def)

lemma pick_fold_inv:
  "xs \<noteq> [] \<Longrightarrow>
   \<exists>k. pick_inv r xs k \<and>
       foldl (pick_step r) pick_init xs
         = \<lparr>best = Some (xs ! k), bestScore = Some (stored_score (score r (xs ! k)))\<rparr>"
proof (induction xs rule: rev_induct)
  case Nil
  then show ?case by simp
next
  case (snoc x ys)
  show ?case
  proof (cases "ys = []")
    case True
    have "pick_inv r [x] 0"
      by (cases "score r x") (simp_all add: pick_inv_def js_lt_irrefl)
    with True show ?thesis
      by (intro exI [of _ 0]) (simp add: pick_step_init)
  next
    case False
    with snoc.IH obtain k where inv: "pick_inv r ys k"
      and st: "foldl (pick_step r) pick_init ys
         = \<lparr>best = Some (ys ! k), bestScore = Some (stored_score (score r (ys ! k)))\<rparr>"
      by blast
    let ?n = "stored_score (score r (ys ! k))"
    from inv have k: "k < length ys" by (simp add: pick_inv_def)
    from inv have all: "\<And>j. j < length ys \<Longrightarrow> score r (ys ! j) \<noteq> NaN \<Longrightarrow>
        \<not> js_lt (score r (ys ! j)) ?n"
      by (simp add: pick_inv_def)
    show ?thesis
    proof (cases "js_lt (score r x) ?n")
      case True
      then have proper: "score r x \<noteq> NaN" by (simp add: js_lt_not_NaN)
      then have stored: "stored_score (score r x) = score r x" by (rule stored_score_proper)
      have below: "js_lt (score r x) (score r (ys ! j))"
        if "j < length ys" "score r (ys ! j) \<noteq> NaN" for j
        using True all [OF that] that(2) by (rule js_lt_below_all)
      have "pick_inv r (ys @ [x]) (length ys)"
        unfolding pick_inv_def
        using proper stored below False
        by (auto simp: nth_append less_Suc_eq js_lt_irrefl dest: js_lt_asym)
      moreover have "foldl (pick_step r) pick_init (ys @ [x])
          = \<lparr>best = Some ((ys @ [x]) ! length ys),
             bestScore = Some (stored_score (score r ((ys @ [x]) ! length ys)))\<rparr>"
        using True by (simp add: st pick_step_taken)
      ultimately show ?thesis by blast
    next
      case nlt: False
      have "pick_inv r (ys @ [x]) k"
        using inv nlt k
        by (auto simp: pick_inv_def nth_append less_Suc_eq)
      moreover have "foldl (pick_step r) pick_init (ys @ [x])
          = \<lparr>best = Some ((ys @ [x]) ! k),
             bestScore = Some (stored_score (score r ((ys @ [x]) ! k)))\<rparr>"
        using nlt k by (simp add: st pick_step_kept nth_append)
      ultimately show ?thesis by blast
    qed
  qed
qed

lemma pickBestStream_index:
  assumes "xs \<noteq> []"
  shows "\<exists>k. pick_inv r xs k \<and> pickBestStream (Some xs) r = Some (xs ! k)"
proof -
  from pick_fold_inv [OF assms, of r] obtain k where "pick_inv r xs k"
    and "foldl (pick_step r) pick_init xs
         = \<lparr>best = Some (xs ! k), bestScore = Some (stored_score (score r (xs ! k)))\<rparr>"
    by blast
  then show ?thesis by (auto simp: pickBestStream_def)
qed

lemma pickBestStream_member:
  assumes "xs \<noteq> []"
  shows "\<exists>s\<in>set xs. pickBestStream (Some xs) r = Some s"
proof -
  from pickBestStream_index [OF assms, of r] obtain k where "k < length xs"
    and "pickBestStream (Some xs) r = Some (xs ! k)"
    by (auto simp: pick_inv_def)
  then show ?thesis by (metis nth_mem)
qed



subsection \<open>C1: the default-stream scenario\<close>

text \<open>
  C1 as stated: for the stream list [1080p (1920x1080, local, h264), 4k (3840x2160, local,
  h264)], the role \<open>defaultStream\<close> (preferred resolution 3840 * 2160), the persisted role
  value "Default" and no explicit enabled-streams value, \<open>getMediaStream\<close> returns the stream
  named "4k" with \<open>isDefault = true\<close>. (The dimensions of the scenario are the \<open>video.width\<close>
  and \<open>video.height\<close> of the descriptors.)

  The code returns "1080p": \<open>defaultStream\<close> prefers prebuffered streams, and without an
  explicit enabled-streams value the prebuffered set is the first stream that is neither a
  cloud stream nor raw video, here [1080p]; the scorer only sees that one candidate.
\<close>

theorem C1_scenario_counterexample:
  "stream (getMediaStream (store_roles (\<lambda>k. Some ''Default'')) defaultStream
             (Some [s1080p, s4k])) \<noteq> Some s4k"
  by (simp add: resolver_defs example_defs)

text \<open>
  C1 amended: on that input \<open>getMediaStream\<close> returns the stream named "1080p" with
  \<open>isDefault = true\<close>, the candidate pool being the default prebuffered set [1080p]; it returns
  "4k" with \<open>isDefault = true\<close> once "4k" is among the explicitly enabled streams.
\<close>

theorem C1_default_scenario:
  "preferredResolution (streamTypes defaultStream) = 3840 * 2160 \<and>
   getPrebufferedStreams (store_roles (\<lambda>k. Some ''Default'')) (Some [s1080p, s4k])
     = Some [s1080p] \<and>
   getMediaStream (store_roles (\<lambda>k. Some ''Default'')) defaultStream (Some [s1080p, s4k])
     = \<lparr>title = ''Local Stream'', isDefault = True, stream = Some s1080p\<rparr> \<and>
   name s1080p = Some ''1080p'' \<and>
   getMediaStream (store_enabled [''1080p'', ''4k''] (\<lambda>k. Some ''Default'')) defaultStream
       (Some [s1080p, s4k])
     = \<lparr>title = ''Local Stream'', isDefault = True, stream = Some s4k\<rparr> \<and>
   name s4k = Some ''4k''"
  by (simp add: resolver_defs example_defs)

subsection \<open>C7: ties go to the first candidate\<close>

text \<open>
  C7. \<open>pickBestStream\<close> is deterministic with first-wins tie-breaking: whenever the candidate
  list holds two candidates, at positions \<open>i < j\<close>, with identical resolution distance to the
  target, the candidate at \<open>j\<close> is not the one returned. The returned candidate is at a
  position \<open>k\<close> before which no candidate has the same distance (the comparison is strictly
  less) and no candidate of the list has a smaller distance; of the two tied candidates alone,
  the first is returned. The distance is the score that the loop computes, in double
  arithmetic; where every value involved stays below \<open>2^53\<close> it is the exact distance
  \<open>|width * height - target|\<close>.
\<close>

theorem pickBestStream_first_wins:
  assumes "i < j" and "j < length xs" and "score r (xs ! i) = score r (xs ! j)"
  shows "(\<exists>k<length xs. pickBestStream (Some xs) r = Some (xs ! k) \<and> k \<noteq> j \<and>
            (\<forall>i'<k. score r (xs ! i') \<noteq> score r (xs ! k)) \<and>
            (\<forall>j'<length xs. \<not> js_lt (score r (xs ! j')) (score r (xs ! k)))) \<and>
         pickBestStream (Some [xs ! i, xs ! j]) r = Some (xs ! i) \<and>
         (\<forall>w h. video_width (xs ! i) = Number w \<and> video_height (xs ! i) = Number h \<and>
            \<bar>w\<bar> < 9007199254740992 \<and> \<bar>h\<bar> < 9007199254740992 \<and>
            \<bar>w * h\<bar> < 9007199254740992 \<and> \<bar>r\<bar> < 9007199254740992 \<and>
            \<bar>w * h - r\<bar> < 9007199254740992 \<longrightarrow>
            score r (xs ! i) = Num \<bar>w * h - r\<bar>)"
proof (intro conjI)
  from assms have ne: "xs \<noteq> []" by auto
  from pickBestStream_index [OF ne, of r] obtain k where inv: "pick_inv r xs k"
    and res: "pickBestStream (Some xs) r = Some (xs ! k)" by blast
  from inv have k: "k < length xs" by (simp add: pick_inv_def)
  have earlier: "score r (xs ! i') \<noteq> score r (xs ! k)" if "i' < k" for i'
  proof (cases "score r (xs ! i') = NaN")
    case True
    with inv that show ?thesis by (auto simp: pick_inv_def)
  next
    case False
    from inv that have proper: "score r (xs ! k) \<noteq> NaN" by (auto simp: pick_inv_def)
    from inv that False have "js_lt (stored_score (score r (xs ! k))) (score r (xs ! i'))"
      by (auto simp: pick_inv_def)
    with proper have "js_lt (score r (xs ! k)) (score r (xs ! i'))"
      by (simp add: stored_score_proper)
    then show ?thesis using js_lt_irrefl by auto
  qed
  have kj: "k \<noteq> j" using earlier [of i] assms by auto
  have minimal: "\<not> js_lt (score r (xs ! j')) (score r (xs ! k))" if "j' < length xs" for j'
  proof (cases "score r (xs ! j') = NaN \<or> score r (xs ! k) = NaN")
    case True
    then show ?thesis using js_lt_not_NaN by blast
  next
    case False
    with inv that have "\<not> js_lt (score r (xs ! j')) (stored_score (score r (xs ! k)))"
      by (auto simp: pick_inv_def)
    with False show ?thesis by (simp add: stored_score_proper)
  qed
  from k res kj earlier minimal
  show "\<exists>k<length xs. pickBestStream (Some xs) r = Some (xs ! k) \<and> k \<noteq> j \<and>
            (\<forall>i'<k. score r (xs ! i') \<noteq> score r (xs ! k)) \<and>
            (\<forall>j'<length xs. \<not> js_lt (score r (xs ! j')) (score r (xs ! k)))"
    by blast
next
  have "\<not> js_lt (score r (xs ! j)) (stored_score (score r (xs ! i)))"
  proof (cases "score r (xs ! i) = NaN")
    case True
    with assms(3) show ?thesis using js_lt_not_NaN by metis
  next
    case False
    with assms(3) show ?thesis by (simp add: stored_score_proper js_lt_irrefl)
  qed
  then show "pickBestStream (Some [xs ! i, xs ! j]) r = Some (xs ! i)"
    by (simp add: pickBestStream_def pick_step_init pick_step_kept)
next
  show "\<forall>w h. video_width (xs ! i) = Number w \<and> video_height (xs ! i) = Number h \<and>
            \<bar>w\<bar> < 9007199254740992 \<and> \<bar>h\<bar> < 9007199254740992 \<and>
            \<bar>w * h\<bar> < 9007199254740992 \<and> \<bar>r\<bar> < 9007199254740992 \<and>
            \<bar>w * h - r\<bar> < 9007199254740992 \<longrightarrow>
            score r (xs ! i) = Num \<bar>w * h - r\<bar>"
    by (auto intro: score_exact)
qed

theorem pickBestStream_first_wins_witness:
  "score (3840 * 2160) s1080p = score (3840 * 2160) sPortrait \<and>
   score (3840 * 2160) s1080p = Num 6220800 \<and>
   pickBestStream (Some [s1080p, sPortrait]) (3840 * 2160) = Some s1080p \<and>
   s1080p \<noteq> sPortrait \<and>
   score (1280 * 720) sAbove = score (1280 * 720) sBelow \<and>
   pickBestStream (Some [sAbove, sBelow]) (1280 * 720) = Some sAbove \<and>
   sAbove \<noteq> sBelow"
proof -
  have a: "score (3840 * 2160) s1080p = Num 6220800"
    by (simp add: score_def video_width_def video_height_def js_round_def example_defs)
  have b: "score (3840 * 2160) sPortrait = Num 6220800"
    by (simp add: score_def video_width_def video_height_def js_round_def example_defs)
  have c: "s1080p \<noteq> sPortrait" and d: "sAbove \<noteq> sBelow"
    by (simp_all add: example_defs)
  have e: "pickBestStream (Some [s1080p, sPortrait]) (3840 * 2160) = Some s1080p"
    using pickBestStream_first_wins
      [of 0 1 "[s1080p, sPortrait]" "3840 * 2160", THEN conjunct2, THEN conjunct1] a b
    by simp
  have f: "pickBestStream (Some [sAbove, sBelow]) (1280 * 720) = Some sAbove"
    using pickBestStream_first_wins
      [of 0 1 "[sAbove, sBelow]" "1280 * 720", THEN conjunct2, THEN conjunct1]
      score_sAbove score_sBelow
    by simp
  from a b c d e f score_sAbove score_sBelow show ?thesis by simp
qed

subsection \<open>C2: the running best score and NaN\<close>




subsection \<open>C3: candidates of unknown resolution\<close>

text \<open>
  C3. A candidate whose width or height is missing receives the worst possible score, so for
  every candidate list a stream with known resolution is always preferred over one with
  unknown resolution, yet a candidate with unknown resolution is still returned when no
  candidate with known resolution exists.

  The loop attempts this by storing \<open>Number.MAX_SAFE_INTEGER\<close> for a NaN score, and misses it
  on two inputs evaluated here. First list: a stream without \<open>video\<close>, then a stream of
  134217728 x 134217728 pixels, target 3840 * 2160; the second stream's score
  18014398501187584 is not below the stored sentinel, and the dimension-less stream is
  returned. Second list: the 4k stream, then a stream whose width is \<open>null\<close>, target
  480 * 360; the \<open>null\<close> width counts as zero, the score is the target itself, and the
  stream of unknown width is returned in place of the 4k stream. Both are reached through
  \<open>getMediaStream\<close>: the first for \<open>defaultStream\<close> with both streams enabled, the second for
  \<open>lowResolutionStream\<close>.
\<close>

theorem C3_unknown_resolution_returned:
  "video sUnknown = None \<and>
   video_width sHuge = Number 134217728 \<and> video_height sHuge = Number 134217728 \<and>
   score (3840 * 2160) sUnknown = NaN \<and>
   score (3840 * 2160) sHuge = Num 18014398501187584 \<and>
   pickBestStream (Some [sUnknown, sHuge]) (3840 * 2160) = Some sUnknown \<and>
   stream (getMediaStream (store_enabled [''nodims'', ''huge''] (\<lambda>k. Some ''Default''))
             defaultStream (Some [sUnknown, sHuge])) = Some sUnknown \<and>
   video_width sNullWidth = Null \<and>
   video_width s4k = Number 3840 \<and> video_height s4k = Number 2160 \<and>
   score (480 * 360) s4k = Num 8121600 \<and>
   score (480 * 360) sNullWidth = Num 172800 \<and>
   pickBestStream (Some [s4k, sNullWidth]) (480 * 360) = Some sNullWidth \<and>
   stream (getMediaStream (store_roles (\<lambda>k. Some ''Default''))
             lowResolutionStream (Some [s4k, sNullWidth])) = Some sNullWidth"
proof -
  have u: "score 8294400 sUnknown = NaN"
    by (simp add: score_def video_width_def sUnknown_def)
  have first: "pickBestStream (Some [sUnknown, sHuge]) 8294400 = Some sUnknown"
    by (simp add: pickBestStream_def pick_step_init pick_step_kept u score_sHuge
        MAX_SAFE_INTEGER_def)
  have pool: "prebufferPreferenceStreams
      (store_enabled [''nodims'', ''huge''] (\<lambda>k. Some ''Default'')) (streamTypes defaultStream)
      (Some [sUnknown, sHuge]) = Some [sUnknown, sHuge]"
    by (simp add: prebufferPreferenceStreams_def getPrebufferedStreams_def length_gt_0_def
        example_defs)
  have api: "stream (getMediaStream (store_enabled [''nodims'', ''huge''] (\<lambda>k. Some ''Default''))
             defaultStream (Some [sUnknown, sHuge])) = Some sUnknown"
    using first pool
    by (simp add: getMediaStream_def getDefaultMediaStream_def store_enabled_def)
  have dims: "video sUnknown = None \<and>
      video_width sHuge = Number 134217728 \<and> video_height sHuge = Number 134217728 \<and>
      video_width sNullWidth = Null \<and>
      video_width s4k = Number 3840 \<and> video_height s4k = Number 2160"
    by (simp add: video_width_def video_height_def example_defs)
  have second: "score 172800 s4k = Num 8121600 \<and> score 172800 sNullWidth = Num 172800 \<and>
      pickBestStream (Some [s4k, sNullWidth]) 172800 = Some sNullWidth \<and>
      stream (getMediaStream (store_roles (\<lambda>k. Some ''Default''))
             lowResolutionStream (Some [s4k, sNullWidth])) = Some sNullWidth"
    by (simp add: resolver_defs example_defs)
  from u first api dims second score_sHuge show ?thesis by simp
qed

subsection \<open>C8: the default prebuffered streams\<close>

lemma find_Some_split:
  "find P xs = Some s \<Longrightarrow> \<exists>ys zs. xs = ys @ s # zs \<and> P s \<and> (\<forall>y\<in>set ys. \<not> P y)"
proof (induction xs)
  case Nil
  then show ?case by simp
next
  case (Cons x xs)
  show ?case
  proof (cases "P x")
    case True
    with Cons.prems have "x # xs = [] @ s # xs \<and> P s \<and> (\<forall>y\<in>set []. \<not> P y)" by simp
    then show ?thesis by (intro exI)
  next
    case False
    with Cons obtain ys zs where "xs = ys @ s # zs" "P s" "\<forall>y\<in>set ys. \<not> P y" by auto
    with False have "x # xs = (x # ys) @ s # zs \<and> P s \<and> (\<forall>y\<in>set (x # ys). \<not> P y)" by simp
    then show ?thesis by (intro exI)
  qed
qed

text \<open>
  C8. For every defined stream list, \<open>getDefaultPrebufferedStreams\<close> never includes a stream
  whose source is "cloud" or whose container is "rawvideo"; it returns the one-element list
  holding the first stream in input order with \<open>source !== 'cloud'\<close> and
  \<open>container !== 'rawvideo'\<close> when there is one, and the empty list (not \<open>undefined\<close>) when
  there is none.
\<close>

theorem getDefaultPrebufferedStreams_first_eligible:
  "\<exists>r. getDefaultPrebufferedStreams (Some xs) = Some r \<and>
     (\<forall>s\<in>set r. s \<in> set xs \<and> source s \<noteq> Some ''cloud'' \<and> container s \<noteq> Some ''rawvideo'') \<and>
     ((\<exists>s\<in>set xs. source s \<noteq> Some ''cloud'' \<and> container s \<noteq> Some ''rawvideo'') \<longrightarrow>
        (\<exists>ys s zs. xs = ys @ s # zs \<and>
           (\<forall>y\<in>set ys. source y = Some ''cloud'' \<or> container y = Some ''rawvideo'') \<and>
           source s \<noteq> Some ''cloud'' \<and> container s \<noteq> Some ''rawvideo'' \<and> r = [s])) \<and>
     ((\<forall>s\<in>set xs. source s = Some ''cloud'' \<or> container s = Some ''rawvideo'') \<longrightarrow> r = [])"
proof -
  let ?P = "\<lambda>mso. source mso \<noteq> Some ''cloud'' \<and> container mso \<noteq> Some ''rawvideo''"
  show ?thesis
  proof (cases "find ?P xs")
    case None
    then have none: "\<forall>s\<in>set xs. \<not> ?P s" by (simp add: find_None_iff)
    from None have "getDefaultPrebufferedStreams (Some xs) = Some []"
      by (simp add: getDefaultPrebufferedStreams_def)
    with none show ?thesis by auto
  next
    case (Some s)
    from find_Some_split [OF Some] obtain ys zs where
      split: "xs = ys @ s # zs" "?P s" "\<forall>y\<in>set ys. \<not> ?P y" by blast
    from Some have res: "getDefaultPrebufferedStreams (Some xs) = Some [s]"
      by (simp add: getDefaultPrebufferedStreams_def)
    from split have mem: "s \<in> set xs" by simp
    from split have first: "\<exists>ys s' zs. xs = ys @ s' # zs \<and>
           (\<forall>y\<in>set ys. source y = Some ''cloud'' \<or> container y = Some ''rawvideo'') \<and>
           source s' \<noteq> Some ''cloud'' \<and> container s' \<noteq> Some ''rawvideo'' \<and> [s] = [s']"
      by blast
    from mem split(2) have some: "\<not> (\<forall>s\<in>set xs. source s = Some ''cloud'' \<or> container s = Some ''rawvideo'')"
      by blast
    from res mem split(2) first some show ?thesis by simp
  qed
qed

theorem getDefaultPrebufferedStreams_first_eligible_witness:
  "getDefaultPrebufferedStreams (Some [sCloud, sRaw, s1080p, s4k]) = Some [s1080p] \<and>
   getDefaultPrebufferedStreams (Some [sCloud, sRaw]) = Some [] \<and>
   source sCloud = Some ''cloud'' \<and> container sRaw = Some ''rawvideo'' \<and>
   source s1080p \<noteq> Some ''cloud'' \<and> container s1080p \<noteq> Some ''rawvideo''"
  using getDefaultPrebufferedStreams_first_eligible [of "[sCloud, sRaw, s1080p, s4k]"]
    getDefaultPrebufferedStreams_first_eligible [of "[sCloud, sRaw]"]
  by (simp add: getDefaultPrebufferedStreams_def example_defs)

subsection \<open>C9: the enabled streams\<close>

text \<open>
  C9. \<open>getPrebufferedStreams\<close> returns \<open>undefined\<close> when the stream list is \<open>undefined\<close>. When an
  explicit enabled-streams value is set, it returns exactly the streams whose name appears in
  the persisted enabled set, in the order of the input list; a persisted name that matches no
  current stream contributes nothing and raises no error. When no explicit value is set, it
  returns the result of \<open>getDefaultPrebufferedStreams\<close>.
\<close>

theorem getPrebufferedStreams_cases:
  "getPrebufferedStreams st None = None \<and>
   (hasValue_enabledStreams st \<longrightarrow>
      (\<exists>r. getPrebufferedStreams st (Some xs) = Some r \<and>
         r = filter (\<lambda>s. \<exists>n\<in>set (values_enabledStreams st). name s = Some n) xs \<and>
         subseq r xs \<and>
         (\<forall>s. s \<in> set r \<longleftrightarrow>
            s \<in> set xs \<and> (\<exists>n\<in>set (values_enabledStreams st). name s = Some n)))) \<and>
   (\<not> hasValue_enabledStreams st \<longrightarrow>
      getPrebufferedStreams st msos = getDefaultPrebufferedStreams msos)"
proof (intro conjI impI)
  show "getPrebufferedStreams st None = None"
    by (simp add: getPrebufferedStreams_def)
next
  assume hv: "hasValue_enabledStreams st"
  let ?Q = "\<lambda>s. \<exists>n\<in>set (values_enabledStreams st). name s = Some n"
  have inc: "includes_str (values_enabledStreams st) (name s) = ?Q s" for s
    by (cases "name s") auto
  from hv have "getPrebufferedStreams st (Some xs) = Some (filter ?Q xs)"
    by (simp add: getPrebufferedStreams_def inc)
  moreover have "subseq (filter ?Q xs) xs" by simp
  moreover have "\<forall>s. s \<in> set (filter ?Q xs) \<longleftrightarrow> s \<in> set xs \<and> ?Q s" by simp
  ultimately show "\<exists>r. getPrebufferedStreams st (Some xs) = Some r \<and>
         r = filter ?Q xs \<and> subseq r xs \<and> (\<forall>s. s \<in> set r \<longleftrightarrow> s \<in> set xs \<and> ?Q s)"
    by blast
next
  assume "\<not> hasValue_enabledStreams st"
  then show "getPrebufferedStreams st msos = getDefaultPrebufferedStreams msos"
    by (cases msos) (simp_all add: getPrebufferedStreams_def getDefaultPrebufferedStreams_def)
qed

theorem getPrebufferedStreams_cases_witness:
  "hasValue_enabledStreams (store_enabled [''4k'', ''gone'', ''1080p''] (\<lambda>k. None)) \<and>
   getPrebufferedStreams (store_enabled [''4k'', ''gone'', ''1080p''] (\<lambda>k. None))
       (Some [s1080p, sCloud, s4k]) = Some [s1080p, s4k] \<and>
   \<not> hasValue_enabledStreams (store_roles (\<lambda>k. None)) \<and>
   getPrebufferedStreams (store_roles (\<lambda>k. None)) (Some [sCloud, s4k, s1080p]) = Some [s4k] \<and>
   getPrebufferedStreams (store_roles (\<lambda>k. None)) None = None"
  using getPrebufferedStreams_cases
      [of "store_enabled [''4k'', ''gone'', ''1080p''] (\<lambda>k. None)" "[s1080p, sCloud, s4k]" None]
    getPrebufferedStreams_cases
      [of "store_roles (\<lambda>k. None)" "[]" "Some [sCloud, s4k, s1080p]"]
  by (simp add: getPrebufferedStreams_def getDefaultPrebufferedStreams_def example_defs)

subsection \<open>C6: the candidate pool of the default media stream\<close>

lemma length_gt_0_iff:
  "length_gt_0 enabledStreams \<longleftrightarrow> (\<exists>es. enabledStreams = Some es \<and> es \<noteq> [])"
  by (cases enabledStreams) (simp_all add: length_gt_0_def)

lemma getPrebufferedStreams_subset:
  assumes "getPrebufferedStreams st (Some xs) = Some es"
  shows "set es \<subseteq> set xs"
proof (cases "hasValue_enabledStreams st")
  case True
  with assms show ?thesis by (auto simp: getPrebufferedStreams_def)
next
  case False
  with assms show ?thesis
    by (auto simp: getPrebufferedStreams_def getDefaultPrebufferedStreams_def
        split: option.splits dest: find_Some_split)
qed

lemma getDefaultMediaStream_member:
  assumes "xs \<noteq> []"
  shows "\<exists>s\<in>set xs. getDefaultMediaStream st v (Some xs) = Some s"
proof (cases "prefersPrebuffer v \<and> length_gt_0 (getPrebufferedStreams st (Some xs))")
  case True
  then obtain es where es: "getPrebufferedStreams st (Some xs) = Some es" "es \<noteq> []"
    by (auto simp: length_gt_0_iff)
  from pickBestStream_member [OF es(2), of "preferredResolution v"] obtain s
    where "s \<in> set es" "pickBestStream (Some es) (preferredResolution v) = Some s" by blast
  moreover from es(1) have "set es \<subseteq> set xs" by (rule getPrebufferedStreams_subset)
  ultimately show ?thesis
    using True es by (auto simp: getDefaultMediaStream_def prebufferPreferenceStreams_def Let_def)
next
  case False
  from pickBestStream_member [OF assms, of "preferredResolution v"] obtain s
    where "s \<in> set xs" "pickBestStream (Some xs) (preferredResolution v) = Some s" by blast
  with False show ?thesis
    by (auto simp: getDefaultMediaStream_def prebufferPreferenceStreams_def Let_def)
qed

text \<open>
  C6. \<open>getDefaultMediaStream\<close> hands the enabled (prebuffered) streams to the scorer if and
  only if the role's \<open>prefersPrebuffer\<close> flag is true and the enabled-streams list is defined
  and non-empty; otherwise the scorer gets the full stream list. In particular, when the
  enabled subset is empty, the result is the scorer's choice among the full list, and for a
  non-empty stream list the result is one of its streams, never \<open>undefined\<close>.
\<close>

theorem getDefaultMediaStream_pool:
  "prebufferPreferenceStreams st v msos =
     (if prefersPrebuffer v \<and> (\<exists>es. getPrebufferedStreams st msos = Some es \<and> es \<noteq> [])
      then getPrebufferedStreams st msos else msos) \<and>
   getDefaultMediaStream st v msos
     = pickBestStream (prebufferPreferenceStreams st v msos) (preferredResolution v) \<and>
   (getPrebufferedStreams st (Some xs) = Some [] \<longrightarrow>
      getDefaultMediaStream st v (Some xs) = pickBestStream (Some xs) (preferredResolution v)) \<and>
   (xs \<noteq> [] \<longrightarrow> (\<exists>s\<in>set xs. getDefaultMediaStream st v (Some xs) = Some s))"
proof (intro conjI impI)
  show "prebufferPreferenceStreams st v msos =
     (if prefersPrebuffer v \<and> (\<exists>es. getPrebufferedStreams st msos = Some es \<and> es \<noteq> [])
      then getPrebufferedStreams st msos else msos)"
    by (simp add: prebufferPreferenceStreams_def length_gt_0_iff Let_def)
next
  show "getDefaultMediaStream st v msos
     = pickBestStream (prebufferPreferenceStreams st v msos) (preferredResolution v)"
    by (simp add: getDefaultMediaStream_def)
next
  assume "getPrebufferedStreams st (Some xs) = Some []"
  then show "getDefaultMediaStream st v (Some xs) = pickBestStream (Some xs) (preferredResolution v)"
    by (simp add: getDefaultMediaStream_def prebufferPreferenceStreams_def length_gt_0_iff Let_def)
next
  assume "xs \<noteq> []"
  then show "\<exists>s\<in>set xs. getDefaultMediaStream st v (Some xs) = Some s"
    by (rule getDefaultMediaStream_member)
qed

theorem getDefaultMediaStream_pool_witness:
  "prefersPrebuffer (streamTypes defaultStream) \<and>
   getPrebufferedStreams (store_enabled [''gone''] (\<lambda>k. None)) (Some [s1080p, s4k]) = Some [] \<and>
   getDefaultMediaStream (store_enabled [''gone''] (\<lambda>k. None)) (streamTypes defaultStream)
       (Some [s1080p, s4k]) = Some s4k \<and>
   prebufferPreferenceStreams (store_enabled [''1080p''] (\<lambda>k. None)) (streamTypes defaultStream)
       (Some [s1080p, s4k]) = Some [s1080p] \<and>
   getDefaultMediaStream (store_enabled [''1080p''] (\<lambda>k. None)) (streamTypes defaultStream)
       (Some [s1080p, s4k]) = Some s1080p \<and>
   prebufferPreferenceStreams (store_enabled [''1080p''] (\<lambda>k. None)) (streamTypes remoteStream)
       (Some [s4k, s1080p]) = Some [s4k, s1080p]"
  using getDefaultMediaStream_pool [of "store_enabled [''gone''] (\<lambda>k. None)"
      "streamTypes defaultStream" "Some [s1080p, s4k]" "[s1080p, s4k]"]
    getDefaultMediaStream_pool [of "store_enabled [''1080p''] (\<lambda>k. None)"
      "streamTypes defaultStream" "Some [s1080p, s4k]" "[s1080p, s4k]"]
    getDefaultMediaStream_pool [of "store_enabled [''1080p''] (\<lambda>k. None)"
      "streamTypes remoteStream" "Some [s4k, s1080p]" "[s4k, s1080p]"]
  by (simp add: resolver_defs example_defs)

subsection \<open>C4, C5, C10: the role resolver\<close>

text \<open>
  C4. If the persisted configuration value for a role equals the name of a stream present in
  the current stream list and is not the sentinel "Default", \<open>getMediaStream\<close> returns
  \<open>isDefault = false\<close> and that stream: the first stream of the list carrying the name,
  which is the stream itself when names are unique within the list.
\<close>

theorem getMediaStream_explicit_choice:
  assumes "values_role st key = Some n" and "n \<noteq> ''Default''"
    and "s \<in> set xs" and "name s = Some n"
  shows "\<exists>t. getMediaStream st key (Some xs)
           = \<lparr>title = StreamStorageSetting.title (streamTypes key), isDefault = False,
              stream = Some t\<rparr> \<and>
         (\<exists>ys zs. xs = ys @ t # zs \<and> name t = Some n \<and> (\<forall>y\<in>set ys. name y \<noteq> Some n)) \<and>
         (distinct (map name xs) \<longrightarrow> t = s)"
proof -
  from assms(3,4) have "find (\<lambda>mso. name mso = Some n) xs \<noteq> None"
    by (auto simp: find_None_iff)
  then obtain t where t: "find (\<lambda>mso. name mso = Some n) xs = Some t" by blast
  from find_Some_split [OF t] obtain ys zs where
    split: "xs = ys @ t # zs" "name t = Some n" "\<forall>y\<in>set ys. name y \<noteq> Some n" by blast
  have res: "getMediaStream st key (Some xs)
           = \<lparr>title = StreamStorageSetting.title (streamTypes key), isDefault = False,
              stream = Some t\<rparr>"
    using assms(1,2) t by (simp add: getMediaStream_def find_by_name_def)
  have uniq: "t = s" if "distinct (map name xs)"
  proof -
    from split have "t \<in> set xs" by simp
    with that assms(3,4) split(2) show ?thesis
      by (metis distinct_map inj_on_def)
  qed
  from res split uniq show ?thesis by blast
qed

theorem getMediaStream_explicit_choice_witness:
  "getMediaStream (store_roles (\<lambda>k. Some ''4k'')) defaultStream (Some [s1080p, s4k])
     = \<lparr>title = ''Local Stream'', isDefault = False, stream = Some s4k\<rparr> \<and>
   name s4k = Some ''4k'' \<and> ''4k'' \<noteq> ''Default'' \<and> distinct (map name [s1080p, s4k])"
  using getMediaStream_explicit_choice
    [of "store_roles (\<lambda>k. Some ''4k'')" defaultStream "''4k''" s4k "[s1080p, s4k]"]
  by (simp add: resolver_defs example_defs)

text \<open>
  C5. If the persisted configuration value names a stream absent from the current stream
  list, the stale reference is recovered locally: the result has \<open>isDefault = true\<close> and its
  stream is the one computed by \<open>getDefaultMediaStream\<close>, which for a non-empty list is one of
  the current streams (and so differs from the stale name). The resolver has no failing step.
\<close>

theorem getMediaStream_stale_reference:
  assumes "values_role st key = Some n" and "\<forall>s\<in>set xs. name s \<noteq> Some n"
  shows "getMediaStream st key (Some xs)
           = \<lparr>title = StreamStorageSetting.title (streamTypes key), isDefault = True,
              stream = getDefaultMediaStream st (streamTypes key) (Some xs)\<rparr> \<and>
         (xs \<noteq> [] \<longrightarrow>
            (\<exists>t\<in>set xs. stream (getMediaStream st key (Some xs)) = Some t \<and> name t \<noteq> Some n))"
proof -
  from assms(2) have none: "find (\<lambda>mso. name mso = Some n) xs = None"
    by (simp add: find_None_iff)
  with assms(1) have res: "getMediaStream st key (Some xs)
           = \<lparr>title = StreamStorageSetting.title (streamTypes key), isDefault = True,
              stream = getDefaultMediaStream st (streamTypes key) (Some xs)\<rparr>"
    by (simp add: getMediaStream_def find_by_name_def)
  have "\<exists>t\<in>set xs. stream (getMediaStream st key (Some xs)) = Some t \<and> name t \<noteq> Some n"
    if "xs \<noteq> []"
  proof -
    from getDefaultMediaStream_member [OF that, of st "streamTypes key"] obtain t
      where "t \<in> set xs" "getDefaultMediaStream st (streamTypes key) (Some xs) = Some t"
      by blast
    with res assms(2) show ?thesis by auto
  qed
  with res show ?thesis by blast
qed

theorem getMediaStream_stale_reference_witness:
  "getMediaStream (store_roles (\<lambda>k. Some ''720p'')) remoteStream (Some [s4k, s1080p])
     = \<lparr>title = ''Remote (Medium Resolution) Stream'', isDefault = True,
        stream = Some s1080p\<rparr> \<and>
   name s1080p \<noteq> Some ''720p'' \<and> name s4k \<noteq> Some ''720p''"
  using getMediaStream_stale_reference
    [of "store_roles (\<lambda>k. Some ''720p'')" remoteStream "''720p''" "[s4k, s1080p]"]
  by (simp add: resolver_defs example_defs)

text \<open>
  C10. A stream whose name is literally "Default" is never returned as an explicit choice:
  for every stream list containing a descriptor named "Default", when the persisted role
  value is "Default", the name lookup does find a stream, yet \<open>getMediaStream\<close> sets
  \<open>isDefault = true\<close> and takes the stream from \<open>getDefaultMediaStream\<close>.
\<close>

theorem getMediaStream_Default_sentinel:
  assumes "values_role st key = Some ''Default''"
    and "d \<in> set xs" and "name d = Some ''Default''"
  shows "find_by_name (Some xs) (values_role st key) \<noteq> None \<and>
         getMediaStream st key (Some xs)
           = \<lparr>title = StreamStorageSetting.title (streamTypes key), isDefault = True,
              stream = getDefaultMediaStream st (streamTypes key) (Some xs)\<rparr>"
proof
  from assms show "find_by_name (Some xs) (values_role st key) \<noteq> None"
    by (auto simp: find_by_name_def find_None_iff)
next
  from assms(1) show "getMediaStream st key (Some xs)
           = \<lparr>title = StreamStorageSetting.title (streamTypes key), isDefault = True,
              stream = getDefaultMediaStream st (streamTypes key) (Some xs)\<rparr>"
    by (simp add: getMediaStream_def)
qed

theorem getMediaStream_Default_sentinel_witness:
  "name sDefaultNamed = Some ''Default'' \<and>
   find_by_name (Some [sDefaultNamed, s4k]) (Some ''Default'') = Some sDefaultNamed \<and>
   getMediaStream (store_enabled [''4k''] (\<lambda>k. Some ''Default'')) defaultStream
       (Some [sDefaultNamed, s4k])
     = \<lparr>title = ''Local Stream'', isDefault = True, stream = Some s4k\<rparr> \<and>
   sDefaultNamed \<noteq> s4k"
  using getMediaStream_Default_sentinel
    [of "store_enabled [''4k''] (\<lambda>k. Some ''Default'')" defaultStream sDefaultNamed
      "[sDefaultNamed, s4k]"]
  by (simp add: resolver_defs example_defs)

end
